theory Spec2Isabelle
  imports Main
begin

section \<open>URL routing of the posts application\<close>

text \<open>
  The application's \<^verbatim>\<open>posts/urls.py\<close> is a list of \<^verbatim>\<open>path(route, view, name=...)\<close>
  declarations. A route is a string in the framework's route syntax: literal text with
  components \<^verbatim>\<open><converter:parameter>\<close> or \<^verbatim>\<open><parameter>\<close>. The framework
  resolves a request path by trying the patterns in list order and dispatching to the
  first one whose route matches the whole path. The path given to this list is the request
  path without its leading slash (the list is mounted at the site root).

  The list is the application's; \<^verbatim>\<open>path\<close>, the converters and the resolver are
  Django's (\<^verbatim>\<open>django.urls\<close>), and are written out here as Django documents them, so
  that the list can be run. The view functions are only named: what they do is not part of
  the routing.
\<close>

subsection \<open>Views named by the routing table\<close>

datatype view =
    views_page_not_found
  | views_server_error
  | views_index
  | views_group_posts
  | views_new_post
  | views_JustStaticPage
  | views_follow_index
  | views_profile_follow
  | views_profile_unfollow
  | views_profile
  | views_post_view
  | views_post_edit
  | views_add_comment

subsection \<open>Path converters\<close>

text \<open>
  The registered converters with the strings each one accepts:
  \<^verbatim>\<open>str\<close> is \<^verbatim>\<open>[^/]+\<close>, \<^verbatim>\<open>int\<close> is \<^verbatim>\<open>[0-9]+\<close>, \<^verbatim>\<open>slug\<close> is
  \<^verbatim>\<open>[-a-zA-Z0-9_]+\<close>, \<^verbatim>\<open>path\<close> is \<^verbatim>\<open>.+\<close> and \<^verbatim>\<open>uuid\<close> is
  \<^verbatim>\<open>[0-9a-f]{8}-[0-9a-f]{4}-[0-9a-f]{4}-[0-9a-f]{4}-[0-9a-f]{12}\<close>.
\<close>

datatype converter = StringConverter | IntConverter | SlugConverter | PathConverter | UUIDConverter

definition ord :: "char \<Rightarrow> nat" where
  "ord c = of_char c"

definition in_range :: "char \<Rightarrow> char \<Rightarrow> char \<Rightarrow> bool" where
  "in_range lo hi c = (ord lo \<le> ord c \<and> ord c \<le> ord hi)"

definition is_digit :: "char \<Rightarrow> bool" where
  "is_digit c = in_range CHR ''0'' CHR ''9'' c"

definition is_lower :: "char \<Rightarrow> bool" where
  "is_lower c = in_range CHR ''a'' CHR ''z'' c"

definition is_upper :: "char \<Rightarrow> bool" where
  "is_upper c = in_range CHR ''A'' CHR ''Z'' c"

definition is_slug_char :: "char \<Rightarrow> bool" where
  "is_slug_char c = (c = CHR ''-'' \<or> is_lower c \<or> is_upper c \<or> is_digit c \<or> c = CHR ''_'')"

definition is_hex_char :: "char \<Rightarrow> bool" where
  "is_hex_char c = (is_digit c \<or> in_range CHR ''a'' CHR ''f'' c)"

fun uuid_shape :: "nat list \<Rightarrow> string \<Rightarrow> bool" where
  "uuid_shape [] s = (s = [])"
| "uuid_shape [n] s = (length s = n \<and> list_all is_hex_char s)"
| "uuid_shape (n # m # ns) s =
     (length s > n \<and> list_all is_hex_char (take n s) \<and> s ! n = CHR ''-'' \<and>
      uuid_shape (m # ns) (drop (Suc n) s))"

fun accepts :: "converter \<Rightarrow> string \<Rightarrow> bool" where
  "accepts StringConverter s = (s \<noteq> [] \<and> list_all (\<lambda>c. c \<noteq> CHR ''/'') s)"
| "accepts IntConverter s = (s \<noteq> [] \<and> list_all is_digit s)"
| "accepts SlugConverter s = (s \<noteq> [] \<and> list_all is_slug_char s)"
| "accepts PathConverter s = (s \<noteq> [])"
| "accepts UUIDConverter s = uuid_shape [8, 4, 4, 4, 12] s"

text \<open>
  Each converter turns the text it captured into the keyword argument handed to the
  view: \<^verbatim>\<open>int\<close> gives the number (\<^verbatim>\<open>int(value)\<close>), the others the text itself.
\<close>

datatype kwarg = StrArg string | IntArg nat

definition digit_val :: "char \<Rightarrow> nat" where
  "digit_val c = ord c - ord CHR ''0''"

definition decimal :: "string \<Rightarrow> nat" where
  "decimal s = foldl (\<lambda>n c. 10 * n + digit_val c) 0 s"

fun to_python :: "converter \<Rightarrow> string \<Rightarrow> kwarg" where
  "to_python IntConverter s = IntArg (decimal s)"
| "to_python c s = StrArg s"

definition get_converter :: "string \<Rightarrow> converter option" where
  "get_converter raw =
     (if raw = ''int'' then Some IntConverter
      else if raw = ''path'' then Some PathConverter
      else if raw = ''slug'' then Some SlugConverter
      else if raw = ''str'' then Some StringConverter
      else if raw = ''uuid'' then Some UUIDConverter
      else None)"

subsection \<open>Routes\<close>

text \<open>
  A route is read left to right. A component starts at a \<^verbatim>\<open><\<close>, runs to the next
  \<^verbatim>\<open>>\<close> and is not empty; its text up to the first colon names the converter, and where
  there is no converter the default is \<^verbatim>\<open>str\<close>. The parameter has to be an identifier
  and the converter a registered one, otherwise the route is rejected
  (\<^verbatim>\<open>ImproperlyConfigured\<close>). Everything else is literal text.
\<close>

datatype part = Literal string | Parameter converter string

datatype error = ImproperlyConfigured

definition is_identifier :: "string \<Rightarrow> bool" where
  "is_identifier s =
     (case s of [] \<Rightarrow> False
      | c # cs \<Rightarrow> (is_lower c \<or> is_upper c \<or> c = CHR ''_'') \<and>
          list_all (\<lambda>d. is_lower d \<or> is_upper d \<or> is_digit d \<or> d = CHR ''_'') cs)"

definition split_component :: "string \<Rightarrow> string option \<times> string" where
  "split_component body =
     (let conv = takeWhile (\<lambda>c. c \<noteq> CHR '':'') body;
          rest = dropWhile (\<lambda>c. c \<noteq> CHR '':'') body
      in if conv \<noteq> [] \<and> length rest > 1 then (Some conv, tl rest) else (None, body))"

definition component :: "string \<Rightarrow> error + part" where
  "component body =
     (case split_component body of
        (raw_converter, parameter) \<Rightarrow>
          if \<not> is_identifier parameter then Inl ImproperlyConfigured
          else (case get_converter (case raw_converter of None \<Rightarrow> ''str'' | Some r \<Rightarrow> r) of
                  None \<Rightarrow> Inl ImproperlyConfigured
                | Some conv \<Rightarrow> Inr (Parameter conv parameter)))"

fun literal_cons :: "char \<Rightarrow> part list \<Rightarrow> part list" where
  "literal_cons c (Literal l # ps) = Literal (c # l) # ps"
| "literal_cons c ps = Literal [c] # ps"

function route_to_parts :: "string \<Rightarrow> error + part list" where
  "route_to_parts [] = Inr []"
| "route_to_parts (c # r) =
     (if c = CHR ''<'' \<and> CHR ''>'' \<in> set r \<and> takeWhile (\<lambda>x. x \<noteq> CHR ''>'') r \<noteq> [] then
        (case component (takeWhile (\<lambda>x. x \<noteq> CHR ''>'') r) of
           Inl e \<Rightarrow> Inl e
         | Inr p \<Rightarrow>
             (case route_to_parts (tl (dropWhile (\<lambda>x. x \<noteq> CHR ''>'') r)) of
                Inl e \<Rightarrow> Inl e
              | Inr ps \<Rightarrow> Inr (p # ps)))
      else
        (case route_to_parts r of
           Inl e \<Rightarrow> Inl e
         | Inr ps \<Rightarrow> Inr (literal_cons c ps)))"
  by pat_completeness auto
termination
proof (relation "measure length")
  fix c :: char and r :: string
  have "length (dropWhile (\<lambda>x. x \<noteq> CHR ''>'') r) \<le> length r"
    by (rule length_dropWhile_le)
  then have "length (tl (dropWhile (\<lambda>x. x \<noteq> CHR ''>'') r)) \<le> length r"
    by simp
  then show "(tl (dropWhile (\<lambda>x. x \<noteq> CHR ''>'') r), c # r) \<in> measure length"
    by simp
qed simp_all

subsection \<open>Matching a path against a route\<close>

text \<open>
  A route matches a path when the whole path splits into the route's literals and one
  accepted capture per parameter. A capture is as long as it can be while the rest of
  the route still matches (the captures are greedy), so the candidates are tried from
  the longest prefix down.
\<close>

fun first_some :: "('a \<Rightarrow> 'b option) \<Rightarrow> 'a list \<Rightarrow> 'b option" where
  "first_some f [] = None"
| "first_some f (x # xs) = (case f x of Some y \<Rightarrow> Some y | None \<Rightarrow> first_some f xs)"

definition starts_with :: "string \<Rightarrow> string \<Rightarrow> bool" where
  "starts_with s l = (take (length l) s = l)"

primrec match_parts :: "part list \<Rightarrow> string \<Rightarrow> (string \<times> kwarg) list option" where
  "match_parts [] s = (if s = [] then Some [] else None)"
| "match_parts (p # ps) s =
     (case p of
        Literal l \<Rightarrow> if starts_with s l then match_parts ps (drop (length l) s) else None
      | Parameter conv name \<Rightarrow>
          first_some
            (\<lambda>k. if accepts conv (take k s)
                 then map_option (\<lambda>kw. (name, to_python conv (take k s)) # kw)
                        (match_parts ps (drop k s))
                 else None)
            (rev [1..<Suc (length s)]))"

subsection \<open>The URL configuration\<close>

record url_pattern =
  route :: string
  parts :: "part list"
  callback :: view
  pattern_name :: "string option"

definition path :: "string \<Rightarrow> view \<Rightarrow> string option \<Rightarrow> error + url_pattern" where
  "path r v n =
     (case route_to_parts r of
        Inl e \<Rightarrow> Inl e
      | Inr ps \<Rightarrow> Inr \<lparr>route = r, parts = ps, callback = v, pattern_name = n\<rparr>)"

fun collect :: "(error + 'a) list \<Rightarrow> error + 'a list" where
  "collect [] = Inr []"
| "collect (x # xs) =
     (case x of
        Inl e \<Rightarrow> Inl e
      | Inr y \<Rightarrow> (case collect xs of Inl e \<Rightarrow> Inl e | Inr ys \<Rightarrow> Inr (y # ys)))"

definition urlpatterns :: "error + url_pattern list" where
  "urlpatterns = collect
     [path ''404/'' views_page_not_found (Some ''404''),
      path ''500/'' views_server_error (Some ''500''),
      path '''' views_index (Some ''index''),
      path ''group/<slug:slug>/'' views_group_posts (Some ''group''),
      path ''new/'' views_new_post (Some ''new_post''),
      path ''justpage/'' views_JustStaticPage None,
      path ''follow/'' views_follow_index (Some ''follow_index''),
      path ''<str:username>/follow/'' views_profile_follow (Some ''profile_follow''),
      path ''<str:username>/unfollow/'' views_profile_unfollow (Some ''profile_unfollow''),
      path ''<str:username>/'' views_profile (Some ''profile''),
      path ''<str:username>/<int:post_id>/'' views_post_view (Some ''post''),
      path ''<str:username>/<int:post_id>/edit/'' views_post_edit (Some ''post_edit''),
      path ''<username>/<int:post_id>/comment/'' views_add_comment (Some ''add_comment'')]"

text \<open>
  Resolution walks the patterns in order; the first match wins, and no match is the
  framework's \<^verbatim>\<open>Resolver404\<close> (the value \<open>None\<close>).
\<close>

fun resolve_in :: "url_pattern list \<Rightarrow> string \<Rightarrow> (view \<times> (string \<times> kwarg) list) option" where
  "resolve_in [] p = None"
| "resolve_in (u # us) p =
     (case match_parts (parts u) p of
        Some kw \<Rightarrow> Some (callback u, kw)
      | None \<Rightarrow> resolve_in us p)"

definition resolve :: "string \<Rightarrow> (view \<times> (string \<times> kwarg) list) option" where
  "resolve p = (case urlpatterns of Inl e \<Rightarrow> None | Inr us \<Rightarrow> resolve_in us p)"

text \<open>
  Reading the configuration: the patterns that loaded, the pattern bound to a view, the
  match of one view's route against a path, and every view whose route matches a path, in
  the order of the list.
\<close>

definition url_list :: "url_pattern list" where
  "url_list = (case urlpatterns of Inl e \<Rightarrow> [] | Inr us \<Rightarrow> us)"

definition pattern_of :: "view \<Rightarrow> url_pattern option" where
  "pattern_of v = find (\<lambda>u. callback u = v) url_list"

definition route_match :: "view \<Rightarrow> string \<Rightarrow> (string \<times> kwarg) list option" where
  "route_match v p = (case pattern_of v of None \<Rightarrow> None | Some u \<Rightarrow> match_parts (parts u) p)"

definition candidates :: "string \<Rightarrow> view list" where
  "candidates p = map callback (filter (\<lambda>u. match_parts (parts u) p \<noteq> None) url_list)"

text \<open>
  What a match means, stated without the search: the path is the concatenation of the
  literals and of one accepted capture per parameter, and the keyword arguments are the
  converted captures in route order.
\<close>

fun splits :: "part list \<Rightarrow> string \<Rightarrow> (string \<times> kwarg) list \<Rightarrow> bool" where
  "splits [] s kw = (s = [] \<and> kw = [])"
| "splits (Literal l # ps) s kw = (\<exists>r. s = l @ r \<and> splits ps r kw)"
| "splits (Parameter c n # ps) s kw =
     (\<exists>a r kw'. s = a @ r \<and> accepts c a \<and> kw = (n, to_python c a) # kw' \<and> splits ps r kw')"

subsection \<open>The URL surface\<close>

text \<open>
  The surface of a pattern is its route as a client sees it: a leading slash, the literal
  text, and each parameter written by its name only.
\<close>

fun show_part :: "part \<Rightarrow> string" where
  "show_part (Literal l) = l"
| "show_part (Parameter c n) = ''<'' @ n @ ''>''"

definition surface :: "url_pattern \<Rightarrow> string" where
  "surface u = CHR ''/'' # concat (map show_part (parts u))"

definition url_surface :: "string list" where
  "url_surface = map surface url_list"

text \<open>
  The table of section 6 of the specification (External interfaces), path column, row by
  row as it is written there.
\<close>

definition spec_url_table :: "string list" where
  "spec_url_table =
     [''/404/'', ''/500/'',
      ''/'',
      ''/group/<slug>/'',
      ''/new/'',
      ''/follow/'',
      ''/<username>/follow/'', ''/<username>/unfollow/'',
      ''/<username>/'',
      ''/<username>/<post_id>/'',
      ''/<username>/<post_id>/edit/'',
      ''/<username>/<post_id>/comment/'']"

section \<open>The view tests\<close>

text \<open>
  \<^verbatim>\<open>posts/tests/test_view.py\<close> holds two test classes. Some claims are about the test
  methods themselves (which names they read, which statements they run); those methods are
  embedded statement by statement. String literals outside ASCII are given by their UTF-8
  bytes.
\<close>

definition utf8 :: "nat list \<Rightarrow> string" where
  "utf8 bs = map char_of bs"

subsection \<open>Statements and expressions of the test methods\<close>

datatype expr =
    Name string
  | Attribute expr string
  | Call expr "expr list"
  | Str string
  | Num int

datatype stmt = Pass | Expr expr | Assign string expr

record funcdef =
  fname :: string
  params :: "string list"
  body :: "stmt list"

text \<open>
  Exceptions: the two the interpreter raises for an unbound name, and any other exception,
  raised by an attribute access or a call, by its class name.
\<close>

datatype exn = NameError string | UnboundLocalError string | Raised string

text \<open>
  Objects are opaque: attribute access, calls and literals are given by the run-time
  environment, which may read and change the world (database, cache, test client).
\<close>

record ('v, 'w) runtime =
  getattr :: "'v \<Rightarrow> string \<Rightarrow> 'w \<Rightarrow> (exn + 'v) \<times> 'w"
  call :: "'v \<Rightarrow> 'v list \<Rightarrow> 'w \<Rightarrow> (exn + 'v) \<times> 'w"
  str_const :: "string \<Rightarrow> 'v"
  num_const :: "int \<Rightarrow> 'v"

text \<open>
  The state of a running function body: its local variables (latest binding first), the
  world, and the calls made so far, each with the callee and its arguments.
\<close>

record ('v, 'w) pystate =
  locals :: "(string \<times> 'v) list"
  world :: "'w"
  calls :: "('v \<times> 'v list) list"

text \<open>
  Name resolution inside a function body: a name the function assigns (or a parameter) is
  local, and reading it unbound is \<^verbatim>\<open>UnboundLocalError\<close>; any other name is looked up in
  the module's globals, then in the builtins, and is a \<^verbatim>\<open>NameError\<close> when neither binds it.
\<close>

record 'v scope =
  local_names :: "string list"
  globals :: "string \<Rightarrow> 'v option"
  builtins :: "string \<Rightarrow> 'v option"

definition lookup :: "'v scope \<Rightarrow> (string \<times> 'v) list \<Rightarrow> string \<Rightarrow> exn + 'v" where
  "lookup sc ls n =
     (if n \<in> set (local_names sc) then
        (case map_of ls n of None \<Rightarrow> Inl (UnboundLocalError n) | Some v \<Rightarrow> Inr v)
      else
        (case globals sc n of
           Some v \<Rightarrow> Inr v
         | None \<Rightarrow> (case builtins sc n of Some v \<Rightarrow> Inr v | None \<Rightarrow> Inl (NameError n))))"

fun eval :: "('v, 'w) runtime \<Rightarrow> 'v scope \<Rightarrow> expr \<Rightarrow> ('v, 'w) pystate \<Rightarrow>
               (exn + 'v) \<times> ('v, 'w) pystate"
  and eval_args :: "('v, 'w) runtime \<Rightarrow> 'v scope \<Rightarrow> expr list \<Rightarrow> ('v, 'w) pystate \<Rightarrow>
               (exn + 'v list) \<times> ('v, 'w) pystate" where
  "eval rt sc (Name n) st = (lookup sc (locals st) n, st)"
| "eval rt sc (Str s) st = (Inr (str_const rt s), st)"
| "eval rt sc (Num i) st = (Inr (num_const rt i), st)"
| "eval rt sc (Attribute e a) st =
     (case eval rt sc e st of
        (Inl x, st') \<Rightarrow> (Inl x, st')
      | (Inr v, st') \<Rightarrow>
          (case getattr rt v a (world st') of (r, w') \<Rightarrow> (r, st'\<lparr>world := w'\<rparr>)))"
| "eval rt sc (Call f args) st =
     (case eval rt sc f st of
        (Inl x, st') \<Rightarrow> (Inl x, st')
      | (Inr fv, st') \<Rightarrow>
          (case eval_args rt sc args st' of
             (Inl x, st'') \<Rightarrow> (Inl x, st'')
           | (Inr vs, st'') \<Rightarrow>
               (case call rt fv vs (world st'') of
                  (r, w') \<Rightarrow> (r, st''\<lparr>world := w', calls := calls st'' @ [(fv, vs)]\<rparr>))))"
| "eval_args rt sc [] st = (Inr [], st)"
| "eval_args rt sc (e # es) st =
     (case eval rt sc e st of
        (Inl x, st') \<Rightarrow> (Inl x, st')
      | (Inr v, st') \<Rightarrow>
          (case eval_args rt sc es st' of
             (Inl x, st'') \<Rightarrow> (Inl x, st'')
           | (Inr vs, st'') \<Rightarrow> (Inr (v # vs), st'')))"

fun exec :: "('v, 'w) runtime \<Rightarrow> 'v scope \<Rightarrow> stmt list \<Rightarrow> ('v, 'w) pystate \<Rightarrow>
               (exn + unit) \<times> ('v, 'w) pystate" where
  "exec rt sc [] st = (Inr (), st)"
| "exec rt sc (Pass # ss) st = exec rt sc ss st"
| "exec rt sc (Expr e # ss) st =
     (case eval rt sc e st of
        (Inl x, st') \<Rightarrow> (Inl x, st')
      | (Inr v, st') \<Rightarrow> exec rt sc ss st')"
| "exec rt sc (Assign n e # ss) st =
     (case eval rt sc e st of
        (Inl x, st') \<Rightarrow> (Inl x, st')
      | (Inr v, st') \<Rightarrow> exec rt sc ss (st'\<lparr>locals := (n, v) # locals st'\<rparr>))"

fun assigned :: "stmt \<Rightarrow> string list" where
  "assigned (Assign n e) = [n]"
| "assigned s = []"

text \<open>
  Calling a function binds the parameters to the arguments and runs the body; an
  exception that leaves the body leaves the call.
\<close>

definition call_function ::
  "('v, 'w) runtime \<Rightarrow> (string \<Rightarrow> 'v option) \<Rightarrow> (string \<Rightarrow> 'v option) \<Rightarrow> funcdef \<Rightarrow> 'v list \<Rightarrow> 'w \<Rightarrow>
     (exn + unit) \<times> ('v, 'w) pystate" where
  "call_function rt g b fd args w =
     exec rt \<lparr>local_names = params fd @ concat (map assigned (body fd)), globals = g, builtins = b\<rparr>
       (body fd) \<lparr>locals = zip (params fd) args, world = w, calls = []\<rparr>"

subsection \<open>The module and the three test methods\<close>

text \<open>
  The names bound at module level of \<^verbatim>\<open>test_view.py\<close>: its imports, its two classes,
  and the attributes every module has. Their values are whatever the imports deliver.
\<close>

definition module_names :: "string list" where
  "module_names =
     [''forms'', ''cache'', ''Client'', ''TestCase'', ''reverse'', ''Group'', ''Post'', ''User'',
      ''PostViewTests'', ''PaginatorViewsTest'',
      ''__name__'', ''__doc__'', ''__package__'', ''__loader__'', ''__spec__'', ''__file__'',
      ''__cached__'', ''__builtins__'']"

definition module_globals :: "(string \<Rightarrow> 'v) \<Rightarrow> string \<Rightarrow> 'v option" where
  "module_globals vals n = (if n \<in> set module_names then Some (vals n) else None)"

definition test_follow_unfollow_feauture :: funcdef where
  "test_follow_unfollow_feauture =
     \<lparr>fname = ''test_follow_unfollow_feauture'',
      params = [''self''],
      body =
        [Expr (Str (utf8 [208, 144, 208, 178, 209, 130, 208, 190, 209, 128, 208, 184, 208, 183, 208,
     190, 208, 178, 208, 176, 208, 189, 208, 189, 209, 139, 208, 185, 32, 208, 191, 208,
     190, 208, 187, 209, 140, 208, 183, 208, 190, 208, 178, 208, 176, 209, 130, 208,
     181, 208, 187, 209, 140, 32, 208, 188, 208, 190, 208, 182, 208, 181, 209, 130, 32,
     208, 191, 208, 190, 208, 180, 208, 191, 208, 184, 209, 129, 209, 139, 208, 178,
     208, 176, 209, 130, 209, 140, 209, 129, 209, 143, 32, 208, 189, 208, 176, 32, 208,
     180, 209, 128, 209, 131, 208, 179, 208, 184, 209, 133, 10, 32, 32, 32, 32, 32, 32,
     32, 32, 208, 191, 208, 190, 208, 187, 209, 140, 208, 183, 208, 190, 208, 178, 208,
     176, 209, 130, 208, 181, 208, 187, 208, 181, 208, 185, 32, 208, 184, 32, 209, 131,
     208, 180, 208, 176, 208, 187, 209, 143, 209, 130, 209, 140, 32, 208, 184, 209, 133,
     32, 208, 184, 208, 183, 32, 208, 191, 208, 190, 208, 180, 208, 191, 208, 184, 209,
     129, 208, 190, 208, 186, 46])),
         Assign ''followers_count'' (Call (Attribute (Name ''user'') ''count'') []),
         Expr (Call (Attribute (Name ''self'') ''assertEqual'')
           [Name ''followers_count'', Num 1,
            Str (utf8 [208, 157, 208, 181, 32, 209, 128, 208, 176, 208, 177, 208, 190, 209, 130,
     208, 176, 208, 181, 209, 130, 32, 208, 191, 208, 190, 208, 180, 208, 191, 208, 184,
     209, 129, 208, 186, 208, 176])]),
         Assign ''followers_count'' (Call (Attribute (Name ''user'') ''count'') []),
         Expr (Call (Attribute (Name ''self'') ''assertEqual'')
           [Name ''followers_count'', Num 0,
            Str (utf8 [208, 157, 208, 181, 32, 209, 128, 208, 176, 208, 177, 208, 190, 209, 130,
     208, 176, 208, 181, 209, 130, 32, 208, 190, 209, 130, 208, 191, 208, 184, 209, 129,
     208, 186, 208, 176])])]\<rparr>"

definition test_profile_shows_new_post :: funcdef where
  "test_profile_shows_new_post =
     \<lparr>fname = ''test_profile_shows_new_post'',
      params = [''self''],
      body =
        [Expr (Str (utf8 [208, 157, 208, 190, 208, 178, 208, 176, 209, 143, 32, 208, 183, 208, 176,
     208, 191, 208, 184, 209, 129, 209, 140, 32, 208, 191, 208, 190, 208, 187, 209, 140,
     208, 183, 208, 190, 208, 178, 208, 176, 209, 130, 208, 181, 208, 187, 209, 143, 32,
     208, 191, 208, 190, 209, 143, 208, 178, 208, 187, 209, 143, 208, 181, 209, 130,
     209, 129, 209, 143, 32, 208, 178, 32, 208, 187, 208, 181, 208, 189, 209, 130, 208,
     181, 32, 209, 130, 208, 181, 209, 133, 44, 32, 208, 186, 209, 130, 208, 190, 32,
     208, 189, 208, 176, 32, 208, 189, 208, 181, 208, 179, 208, 190, 10, 32, 32, 32, 32,
     32, 32, 32, 32, 208, 191, 208, 190, 208, 180, 208, 191, 208, 184, 209, 129, 208,
     176, 208, 189, 32, 208, 184, 32, 208, 189, 208, 181, 32, 208, 191, 208, 190, 209,
     143, 208, 178, 208, 187, 209, 143, 208, 181, 209, 130, 209, 129, 209, 143, 32, 208,
     178, 32, 208, 187, 208, 181, 208, 189, 209, 130, 208, 181, 32, 209, 130, 208, 181,
     209, 133, 44, 32, 208, 186, 209, 130, 208, 190, 32, 208, 189, 208, 181, 32, 208,
     191, 208, 190, 208, 180, 208, 191, 208, 184, 209, 129, 208, 176, 208, 189, 32, 208,
     189, 208, 176, 32, 208, 189, 208, 181, 208, 179, 208, 190, 46])),
         Pass]\<rparr>"

definition test_only_authorized_client_can_comment :: funcdef where
  "test_only_authorized_client_can_comment =
     \<lparr>fname = ''test_only_authorized_client_can_comment'',
      params = [''self''],
      body =
        [Expr (Str (utf8 [208, 162, 208, 190, 208, 187, 209, 140, 208, 186, 208, 190, 32, 208, 176,
     208, 178, 209, 130, 208, 190, 209, 128, 208, 184, 208, 183, 208, 184, 209, 128,
     208, 190, 208, 178, 208, 176, 208, 189, 208, 189, 209, 139, 208, 185, 32, 208, 191,
     208, 190, 208, 187, 209, 140, 208, 183, 208, 190, 208, 178, 208, 176, 209, 130,
     208, 181, 208, 187, 209, 140, 32, 208, 188, 208, 190, 208, 182, 208, 181, 209, 130,
     32, 208, 186, 208, 190, 208, 188, 208, 188, 208, 181, 208, 189, 209, 130, 208, 184,
     209, 128, 208, 190, 208, 178, 208, 176, 209, 130, 209, 140, 32, 208, 191, 208, 190,
     209, 129, 209, 130, 209, 139, 46])),
         Pass]\<rparr>"

text \<open>
  The names Python's \<^verbatim>\<open>builtins\<close> module binds (functions, constants and exception
  classes of the language reference), for a concrete builtins namespace.
\<close>

definition builtin_names :: "string list" where
  "builtin_names =
     [''abs'', ''aiter'', ''all'', ''anext'', ''any'', ''ascii'', ''bin'', ''bool'', ''breakpoint'',
      ''bytearray'', ''bytes'', ''callable'', ''chr'', ''classmethod'', ''compile'', ''complex'',
      ''delattr'', ''dict'', ''dir'', ''divmod'', ''enumerate'', ''eval'', ''exec'', ''filter'',
      ''float'', ''format'', ''frozenset'', ''getattr'', ''globals'', ''hasattr'', ''hash'', ''help'',
      ''hex'', ''id'', ''input'', ''int'', ''isinstance'', ''issubclass'', ''iter'', ''len'', ''list'',
      ''locals'', ''map'', ''max'', ''memoryview'', ''min'', ''next'', ''object'', ''oct'', ''open'',
      ''ord'', ''pow'', ''print'', ''property'', ''range'', ''repr'', ''reversed'', ''round'', ''set'',
      ''setattr'', ''slice'', ''sorted'', ''staticmethod'', ''str'', ''sum'', ''super'', ''tuple'',
      ''type'', ''vars'', ''zip'', ''__import__'',
      ''True'', ''False'', ''None'', ''NotImplemented'', ''Ellipsis'', ''__debug__'',
      ''quit'', ''exit'', ''copyright'', ''credits'', ''license'',
      ''BaseException'', ''Exception'', ''ArithmeticError'', ''AssertionError'',
      ''AttributeError'', ''BufferError'', ''EOFError'', ''ImportError'', ''IndexError'',
      ''KeyError'', ''KeyboardInterrupt'', ''LookupError'', ''MemoryError'',
      ''ModuleNotFoundError'', ''NameError'', ''NotImplementedError'', ''OSError'',
      ''OverflowError'', ''RecursionError'', ''ReferenceError'', ''RuntimeError'',
      ''StopIteration'', ''StopAsyncIteration'', ''SyntaxError'', ''IndentationError'',
      ''TabError'', ''SystemError'', ''SystemExit'', ''TypeError'', ''UnboundLocalError'',
      ''UnicodeError'', ''UnicodeEncodeError'', ''UnicodeDecodeError'',
      ''UnicodeTranslateError'', ''ValueError'', ''ZeroDivisionError'', ''EnvironmentError'',
      ''IOError'', ''Warning'', ''UserWarning'', ''DeprecationWarning'']"

definition python_builtins :: "(string \<Rightarrow> 'v) \<Rightarrow> string \<Rightarrow> 'v option" where
  "python_builtins vals n = (if n \<in> set builtin_names then Some (vals n) else None)"

section \<open>The pages the tests visit\<close>

text \<open>
  The tests of \<^verbatim>\<open>test_view.py\<close> create records and request pages. The models
  (\<^verbatim>\<open>posts/models.py\<close>) and the view functions (\<^verbatim>\<open>posts/views.py\<close>) are not among the
  files at hand; what follows of them is taken from the specification, and the fixtures and
  test methods are taken from the test file.
\<close>

subsection \<open>Records and the site\<close>

text \<open>
  Modelled from the spec: the models \<^verbatim>\<open>Post\<close> (text, author, optional group) and
  \<^verbatim>\<open>Group\<close> (title, slug, description) of section 3 (\<^verbatim>\<open>posts/models.py\<close> is missing).
  A post names its author by username and its group by slug.
\<close>

record Post =
  post_id :: nat
  post_text :: string
  post_author :: string
  post_group :: "string option"

record Group =
  group_title :: string
  group_slug :: string
  group_description :: string

text \<open>
  Modelled from the spec: the state behind the pages (the database tables and the page
  cache of sections 1 and 4; the framework's storage is missing). The posts are kept in
  feed order, newest first; the cache maps the page requested to its rendered content.
\<close>

record site =
  users :: "string list"
  groups :: "Group list"
  posts :: "Post list"
  cache :: "(nat option \<times> string) list"

definition empty_site :: site where
  "empty_site = \<lparr>users = [], groups = [], posts = [], cache = []\<rparr>"

text \<open>
  Modelled from the spec: the object managers' \<^verbatim>\<open>create\<close> (\<^verbatim>\<open>posts/models.py\<close> is
  missing): a new row is stored and returned. It leaves the page cache as it is, which
  is what \<^verbatim>\<open>test_index_page_cache\<close> asserts after creating a post.
\<close>

definition User_objects_create :: "site \<Rightarrow> string \<Rightarrow> string \<times> site" where
  "User_objects_create s username = (username, s\<lparr>users := users s @ [username]\<rparr>)"

definition Group_objects_create :: "site \<Rightarrow> string \<Rightarrow> string \<Rightarrow> string \<Rightarrow> Group \<times> site" where
  "Group_objects_create s title slug description =
     (let g = \<lparr>group_title = title, group_slug = slug, group_description = description\<rparr>
      in (g, s\<lparr>groups := groups s @ [g]\<rparr>))"

definition Post_objects_create :: "site \<Rightarrow> string \<Rightarrow> string \<Rightarrow> string option \<Rightarrow> Post \<times> site" where
  "Post_objects_create s txt author grp =
     (let p = \<lparr>post_id = Suc (length (posts s)), post_text = txt, post_author = author,
                post_group = grp\<rparr>
      in (p, s\<lparr>posts := p # posts s\<rparr>))"

subsection \<open>Pages\<close>

text \<open>
  Modelled from the spec: pagination at 10 items per page (section 4; the paginator call
  in \<^verbatim>\<open>posts/views.py\<close> is missing). Page \<open>n\<close> of a listing is its items
  \<open>10 (n - 1)\<close> up to \<open>10 n\<close>; a request without \<^verbatim>\<open>?page=\<close> asks for page 1.
\<close>

definition paginate :: "nat \<Rightarrow> 'a list \<Rightarrow> nat option \<Rightarrow> 'a list" where
  "paginate per_page xs page =
     (let n = (case page of None \<Rightarrow> 1 | Some k \<Rightarrow> k)
      in take per_page (drop ((n - 1) * per_page) xs))"

text \<open>
  Modelled from the spec: the rendered page (the templates are missing). The content
  shows the posts of the page in order, each with its number, its author and its text on
  lines of their own; the number is written in decimal, as \<^verbatim>\<open>str\<close> writes it. That a
  page tells its posts apart is what \<^verbatim>\<open>test_index_page_cache\<close> relies on when it
  expects a new post to change the page.
\<close>

fun digits :: "nat \<Rightarrow> string" where
  "digits n =
     (if n < 10 then [char_of (48 + n)]
      else digits (n div 10) @ [char_of (48 + n mod 10)])"

declare digits.simps [simp del]

definition render_post :: "Post \<Rightarrow> string" where
  "render_post p =
     digits (post_id p) @ [CHR 10] @ post_author p @ [CHR 10] @ post_text p @ [CHR 10]"

definition render :: "Post list \<Rightarrow> string" where
  "render page = concat (map render_post page)"

record response =
  context_page :: "Post list"
  content :: string



text \<open>
  Modelled from the spec: the view \<^verbatim>\<open>group_posts\<close> (\<^verbatim>\<open>posts/views.py\<close> is missing):
  the posts filtered by the group of the slug, paginated (section 6).
\<close>

definition group_posts :: "site \<Rightarrow> string \<Rightarrow> nat option \<Rightarrow> response" where
  "group_posts s slug page =
     (let objs = paginate 10 (filter (\<lambda>p. post_group p = Some slug) (posts s)) page
      in \<lparr>context_page = objs, content = render objs\<rparr>)"

subsection \<open>Fixtures and test methods\<close>

text \<open>
  \<^verbatim>\<open>PostViewTests.setUpClass\<close>: one user, the group \<^verbatim>\<open>test-slug\<close>, the group
  \<^verbatim>\<open>slug-test\<close>, and one post of the user in the first group.
\<close>

definition PostViewTests_setUpClass :: "site \<Rightarrow> site" where
  "PostViewTests_setUpClass s0 =
     (let (user, s1) = User_objects_create s0 ''username'';
          (grp, s2) = Group_objects_create s1
             (utf8 [208, 151, 208, 176, 208, 179, 208, 190, 208, 187, 208, 190, 208, 178, 208,
               190, 208, 186])
             ''test-slug''
             (utf8 [208, 158, 208, 191, 208, 184, 209, 129, 208, 176, 208, 189, 208, 184, 208,
               181]);
          (wrong_group, s3) = Group_objects_create s2
             (utf8 [208, 147, 209, 128, 209, 131, 208, 191, 208, 191, 208, 176])
             ''slug-test'' ''description'';
          (post, s4) = Post_objects_create s3
             (utf8 [208, 162, 208, 181, 208, 186, 209, 129, 209, 130])
             user (Some (group_slug grp))
      in s4)"

text \<open>
  \<^verbatim>\<open>test_group_shows_new_post\<close> and \<^verbatim>\<open>test_wrong_group_does_not_show_new_post\<close>:
  the length of the page of the group \<^verbatim>\<open>test-slug\<close> is compared with 1, and that of
  the group \<^verbatim>\<open>slug-test\<close> with 0.
\<close>

definition test_group_shows_new_post :: "site \<Rightarrow> bool" where
  "test_group_shows_new_post s =
     (length (context_page (group_posts s ''test-slug'' None)) = 1)"

definition test_wrong_group_does_not_show_new_post :: "site \<Rightarrow> bool" where
  "test_wrong_group_does_not_show_new_post s =
     (length (context_page (group_posts s ''slug-test'' None)) = 0)"





subsection \<open>Histories of the site\<close>





section \<open>Properties of the URL configuration\<close>

text \<open>The configuration loads: every route of the list is well formed.\<close>

lemma urlpatterns_value:
  "urlpatterns = Inr
    [\<lparr>route = ''404/'', parts = [Literal ''404/''], callback = views_page_not_found,
        pattern_name = Some ''404''\<rparr>,
     \<lparr>route = ''500/'', parts = [Literal ''500/''], callback = views_server_error,
        pattern_name = Some ''500''\<rparr>,
     \<lparr>route = [], parts = [], callback = views_index, pattern_name = Some ''index''\<rparr>,
     \<lparr>route = ''group/<slug:slug>/'',
        parts = [Literal ''group/'', Parameter SlugConverter ''slug'', Literal ''/''],
        callback = views_group_posts, pattern_name = Some ''group''\<rparr>,
     \<lparr>route = ''new/'', parts = [Literal ''new/''], callback = views_new_post,
        pattern_name = Some ''new_post''\<rparr>,
     \<lparr>route = ''justpage/'', parts = [Literal ''justpage/''], callback = views_JustStaticPage,
        pattern_name = None\<rparr>,
     \<lparr>route = ''follow/'', parts = [Literal ''follow/''], callback = views_follow_index,
        pattern_name = Some ''follow_index''\<rparr>,
     \<lparr>route = ''<str:username>/follow/'',
        parts = [Parameter StringConverter ''username'', Literal ''/follow/''],
        callback = views_profile_follow, pattern_name = Some ''profile_follow''\<rparr>,
     \<lparr>route = ''<str:username>/unfollow/'',
        parts = [Parameter StringConverter ''username'', Literal ''/unfollow/''],
        callback = views_profile_unfollow, pattern_name = Some ''profile_unfollow''\<rparr>,
     \<lparr>route = ''<str:username>/'',
        parts = [Parameter StringConverter ''username'', Literal ''/''],
        callback = views_profile, pattern_name = Some ''profile''\<rparr>,
     \<lparr>route = ''<str:username>/<int:post_id>/'',
        parts = [Parameter StringConverter ''username'', Literal ''/'',
                 Parameter IntConverter ''post_id'', Literal ''/''],
        callback = views_post_view, pattern_name = Some ''post''\<rparr>,
     \<lparr>route = ''<str:username>/<int:post_id>/edit/'',
        parts = [Parameter StringConverter ''username'', Literal ''/'',
                 Parameter IntConverter ''post_id'', Literal ''/edit/''],
        callback = views_post_edit, pattern_name = Some ''post_edit''\<rparr>,
     \<lparr>route = ''<username>/<int:post_id>/comment/'',
        parts = [Parameter StringConverter ''username'', Literal ''/'',
                 Parameter IntConverter ''post_id'', Literal ''/comment/''],
        callback = views_add_comment, pattern_name = Some ''add_comment''\<rparr>]"
  by code_simp

lemma url_list_value: "urlpatterns = Inr url_list"
  by (simp add: url_list_def urlpatterns_value)

subsection \<open>The search finds exactly the splits\<close>

lemma first_some_hit: "x \<in> set xs \<Longrightarrow> f x \<noteq> None \<Longrightarrow> first_some f xs \<noteq> None"
  by (induction xs) (auto split: option.splits)

lemma first_some_Some: "first_some f xs = Some y \<Longrightarrow> \<exists>x \<in> set xs. f x = Some y"
  by (induction xs) (auto split: option.splits)

lemma starts_with_iff: "starts_with s l \<longleftrightarrow> (\<exists>r. s = l @ r)"
  unfolding starts_with_def
  by (metis append_eq_conv_conj append_take_drop_id)

lemma accepts_nonempty: "accepts c a \<Longrightarrow> a \<noteq> []"
  by (cases c) auto

lemma match_sound: "match_parts ps s = Some kw \<Longrightarrow> splits ps s kw"
proof (induction ps arbitrary: s kw)
  case Nil
  then show ?case by (simp split: if_splits)
next
  case (Cons p ps)
  show ?case
  proof (cases p)
    case (Literal l)
    with Cons.prems have sw: "starts_with s l" and m: "match_parts ps (drop (length l) s) = Some kw"
      by (auto split: if_splits)
    from sw have "s = l @ drop (length l) s"
      unfolding starts_with_def by (metis append_take_drop_id)
    with Cons.IH [OF m] Literal show ?thesis by auto
  next
    case (Parameter c n)
    with Cons.prems obtain k where
      k: "(if accepts c (take k s)
           then map_option (\<lambda>kw. (n, to_python c (take k s)) # kw) (match_parts ps (drop k s))
           else None) = Some kw"
      by (auto dest!: first_some_Some)
    then obtain kw' where acc: "accepts c (take k s)"
        and m: "match_parts ps (drop k s) = Some kw'"
        and kw: "kw = (n, to_python c (take k s)) # kw'"
      by (auto split: if_splits)
    have "s = take k s @ drop k s" by simp
    with Cons.IH [OF m] acc kw
    have "\<exists>a r kw'. s = a @ r \<and> accepts c a \<and> kw = (n, to_python c a) # kw' \<and> splits ps r kw'"
      by blast
    with Parameter show ?thesis by simp
  qed
qed

lemma match_complete: "splits ps s kw \<Longrightarrow> match_parts ps s \<noteq> None"
proof (induction ps arbitrary: s kw)
  case Nil
  then show ?case by simp
next
  case (Cons p ps)
  show ?case
  proof (cases p)
    case (Literal l)
    with Cons.prems obtain r where s: "s = l @ r" and sp: "splits ps r kw" by auto
    from Cons.IH [OF sp] s Literal show ?thesis by (simp add: starts_with_def)
  next
    case (Parameter c n)
    with Cons.prems obtain a r kw' where s: "s = a @ r" and acc: "accepts c a"
        and sp: "splits ps r kw'" by auto
    from acc have ne: "a \<noteq> []" by (rule accepts_nonempty)
    let ?f = "\<lambda>k. if accepts c (take k s)
                 then map_option (\<lambda>kw. (n, to_python c (take k s)) # kw)
                        (match_parts ps (drop k s))
                 else None"
    from ne have "1 \<le> length a" by (cases a) simp_all
    then have mem: "length a \<in> set (rev [1..<Suc (length s)])" using s by simp
    from Cons.IH [OF sp] acc s have "?f (length a) \<noteq> None" by auto
    with mem have "first_some ?f (rev [1..<Suc (length s)]) \<noteq> None"
      by (rule first_some_hit)
    with Parameter show ?thesis by simp
  qed
qed


lemma match_unique:
  assumes "splits ps s kw" and "\<And>kw'. splits ps s kw' \<Longrightarrow> kw' = kw"
  shows "match_parts ps s = Some kw"
proof -
  from assms(1) obtain kw' where m: "match_parts ps s = Some kw'"
    using match_complete by blast
  then have "splits ps s kw'" by (rule match_sound)
  with assms(2) m show ?thesis by simp
qed

lemma slash_split_unique:
  "CHR ''/'' \<notin> set a \<Longrightarrow> CHR ''/'' \<notin> set a' \<Longrightarrow> a @ CHR ''/'' # r = a' @ CHR ''/'' # r'
   \<Longrightarrow> a = a' \<and> r = r'"
proof (induction a arbitrary: a')
  case Nil
  show ?case
  proof (cases a')
    case Nil
    with Nil.prems show ?thesis by simp
  next
    case (Cons y ys)
    with Nil.prems show ?thesis by simp
  qed
next
  case (Cons x a)
  show ?case
  proof (cases a')
    case Nil
    with Cons.prems show ?thesis by simp
  next
    case (Cons y ys)
    with Cons.prems have "CHR ''/'' \<notin> set a" "CHR ''/'' \<notin> set ys"
      "a @ CHR ''/'' # r = ys @ CHR ''/'' # r'" "x = y"
      by simp_all
    with Cons.IH [of ys] Cons show ?thesis by simp
  qed
qed

lemma slash_not_digit: "\<not> is_digit CHR ''/''"
  by (simp add: is_digit_def in_range_def ord_def)

lemma slash_not_slug_char: "\<not> is_slug_char CHR ''/''"
  by (simp add: is_slug_char_def is_digit_def is_lower_def is_upper_def in_range_def ord_def)

lemma accepts_str_iff: "accepts StringConverter a \<longleftrightarrow> a \<noteq> [] \<and> CHR ''/'' \<notin> set a"
  by (simp add: list_all_iff) blast

lemma accepts_str_no_slash: "accepts StringConverter a \<Longrightarrow> CHR ''/'' \<notin> set a"
  using accepts_str_iff by blast

lemma accepts_int_no_slash: "accepts IntConverter d \<Longrightarrow> CHR ''/'' \<notin> set d"
proof
  assume "accepts IntConverter d" and "CHR ''/'' \<in> set d"
  then have "is_digit CHR ''/''" by (simp add: list_all_iff)
  with slash_not_digit show False by contradiction
qed

lemma accepts_slug_no_slash: "accepts SlugConverter d \<Longrightarrow> CHR ''/'' \<notin> set d"
proof
  assume "accepts SlugConverter d" and "CHR ''/'' \<in> set d"
  then have "is_slug_char CHR ''/''" by (simp add: list_all_iff)
  with slash_not_slug_char show False by contradiction
qed

subsection \<open>Building and reading splits\<close>

lemma splits_NilD: "splits [] s kw \<Longrightarrow> s = [] \<and> kw = []"
  by (simp only: splits.simps)

lemma splits_LiteralD:
  "splits (Literal l # ps) s kw \<Longrightarrow> \<exists>r. s = l @ r \<and> splits ps r kw"
  by (simp only: splits.simps)

lemma splits_ParameterD:
  "splits (Parameter c n # ps) s kw \<Longrightarrow>
     \<exists>a r kw'. s = a @ r \<and> accepts c a \<and> kw = (n, to_python c a) # kw' \<and> splits ps r kw'"
  by (simp only: splits.simps)

lemma splits_NilI: "splits [] [] []"
  by (simp only: splits.simps)

lemma splits_LiteralI: "splits ps r kw \<Longrightarrow> splits (Literal l # ps) (l @ r) kw"
  unfolding splits.simps by (rule exI [of _ r]) (rule conjI [OF refl])

lemma splits_ParameterI:
  assumes "accepts c a" and "splits ps r kw"
  shows "splits (Parameter c n # ps) (a @ r) ((n, to_python c a) # kw)"
  unfolding splits.simps
proof (intro exI conjI)
  show "a @ r = a @ r" by (rule refl)
  show "accepts c a" by (rule assms(1))
  show "(n, to_python c a) # kw = (n, to_python c a) # kw" by (rule refl)
  show "splits ps r kw" by (rule assms(2))
qed

lemma splits_param_suffixD:
  assumes "splits [Parameter c n, Literal l] p kw"
  shows "\<exists>a. p = a @ l \<and> accepts c a \<and> kw = [(n, to_python c a)]"
proof -
  from splits_ParameterD [OF assms] obtain a r kw' where
    1: "p = a @ r" "accepts c a" "kw = (n, to_python c a) # kw'" "splits [Literal l] r kw'"
    by blast
  from splits_LiteralD [OF 1(4)] obtain r' where 2: "r = l @ r'" "splits [] r' kw'"
    by blast
  from splits_NilD [OF 2(2)] have 3: "r' = []" "kw' = []" by simp_all
  from 1 2 3 have "p = a @ l \<and> accepts c a \<and> kw = [(n, to_python c a)]" by simp
  then show ?thesis by (rule exI)
qed

lemma splits_param_suffixI:
  assumes "accepts c a"
  shows "splits [Parameter c n, Literal l] (a @ l) [(n, to_python c a)]"
proof -
  have "splits [Literal l] (l @ []) []" by (intro splits_LiteralI splits_NilI)
  then have "splits [Literal l] l []" by simp
  with assms show ?thesis by (rule splits_ParameterI)
qed

lemma splits_two_paramD:
  assumes "splits [Parameter c n, Literal l, Parameter d m, Literal k] p kw"
  shows "\<exists>a b. p = a @ l @ b @ k \<and> accepts c a \<and> accepts d b \<and>
           kw = [(n, to_python c a), (m, to_python d b)]"
proof -
  from splits_ParameterD [OF assms] obtain a r kw' where
    1: "p = a @ r" "accepts c a" "kw = (n, to_python c a) # kw'"
       "splits [Literal l, Parameter d m, Literal k] r kw'"
    by blast
  from splits_LiteralD [OF 1(4)] obtain r' where
    2: "r = l @ r'" "splits [Parameter d m, Literal k] r' kw'"
    by blast
  from splits_param_suffixD [OF 2(2)] obtain b where
    3: "r' = b @ k" "accepts d b" "kw' = [(m, to_python d b)]"
    by blast
  from 1 2 3 have "p = a @ l @ b @ k \<and> accepts c a \<and> accepts d b \<and>
           kw = [(n, to_python c a), (m, to_python d b)]" by simp
  then show ?thesis by blast
qed

lemma splits_two_paramI:
  assumes "accepts c a" and "accepts d b"
  shows "splits [Parameter c n, Literal l, Parameter d m, Literal k] (a @ l @ b @ k)
           [(n, to_python c a), (m, to_python d b)]"
proof -
  have "splits [Parameter d m, Literal k] (b @ k) [(m, to_python d b)]"
    using assms(2) by (rule splits_param_suffixI)
  then have "splits [Literal l, Parameter d m, Literal k] (l @ b @ k) [(m, to_python d b)]"
    by (rule splits_LiteralI)
  with assms(1) show ?thesis by (rule splits_ParameterI)
qed

lemma splits_prefixed_paramD:
  assumes "splits [Literal l, Parameter c n, Literal k] p kw"
  shows "\<exists>a. p = l @ a @ k \<and> accepts c a \<and> kw = [(n, to_python c a)]"
proof -
  from splits_LiteralD [OF assms] obtain r where
    1: "p = l @ r" "splits [Parameter c n, Literal k] r kw"
    by blast
  from splits_param_suffixD [OF 1(2)] obtain a where
    2: "r = a @ k" "accepts c a" "kw = [(n, to_python c a)]"
    by blast
  from 1 2 have "p = l @ a @ k \<and> accepts c a \<and> kw = [(n, to_python c a)]" by simp
  then show ?thesis by (rule exI)
qed

lemma splits_prefixed_paramI:
  assumes "accepts c a"
  shows "splits [Literal l, Parameter c n, Literal k] (l @ a @ k) [(n, to_python c a)]"
  using splits_param_suffixI [OF assms] by (rule splits_LiteralI)

subsection \<open>Routes whose parameters end at a slash\<close>

text \<open>
  A converter that accepts no slash captures exactly the text up to the next slash, so
  a route built from such parameters and slash-led literals has one way to match.
\<close>

lemma match_param_suffix:
  assumes ns: "\<And>a. accepts c a \<Longrightarrow> CHR ''/'' \<notin> set a"
  shows "(match_parts [Parameter c n, Literal (CHR ''/'' # t)] p = Some kw) =
     (\<exists>a. p = a @ CHR ''/'' # t \<and> accepts c a \<and> kw = [(n, to_python c a)])"
proof
  assume "match_parts [Parameter c n, Literal (CHR ''/'' # t)] p = Some kw"
  then have "splits [Parameter c n, Literal (CHR ''/'' # t)] p kw" by (rule match_sound)
  then show "\<exists>a. p = a @ CHR ''/'' # t \<and> accepts c a \<and> kw = [(n, to_python c a)]"
    by (rule splits_param_suffixD)
next
  assume "\<exists>a. p = a @ CHR ''/'' # t \<and> accepts c a \<and> kw = [(n, to_python c a)]"
  then obtain a where p: "p = a @ CHR ''/'' # t" and a: "accepts c a"
    and kw: "kw = [(n, to_python c a)]" by blast
  show "match_parts [Parameter c n, Literal (CHR ''/'' # t)] p = Some kw"
  proof (rule match_unique)
    show "splits [Parameter c n, Literal (CHR ''/'' # t)] p kw"
      unfolding p kw using a by (rule splits_param_suffixI)
  next
    fix kw'
    assume "splits [Parameter c n, Literal (CHR ''/'' # t)] p kw'"
    from splits_param_suffixD [OF this] obtain a' where p': "p = a' @ CHR ''/'' # t"
      and a': "accepts c a'" and kw': "kw' = [(n, to_python c a')]" by blast
    from p p' have "a @ CHR ''/'' # t = a' @ CHR ''/'' # t" by simp
    with ns [OF a] ns [OF a'] have "a = a'" using slash_split_unique by blast
    with kw kw' show "kw' = kw" by simp
  qed
qed

lemma match_two_param:
  assumes nc: "\<And>a. accepts c a \<Longrightarrow> CHR ''/'' \<notin> set a"
    and nd: "\<And>b. accepts d b \<Longrightarrow> CHR ''/'' \<notin> set b"
  shows "(match_parts [Parameter c n, Literal ''/'', Parameter d m, Literal (CHR ''/'' # t)] p
            = Some kw) =
     (\<exists>a b. p = a @ ''/'' @ b @ CHR ''/'' # t \<and> accepts c a \<and> accepts d b \<and>
        kw = [(n, to_python c a), (m, to_python d b)])"
  (is "(match_parts ?ps p = Some kw) = ?R")
proof
  assume "match_parts ?ps p = Some kw"
  then have "splits ?ps p kw" by (rule match_sound)
  then show ?R by (rule splits_two_paramD)
next
  assume ?R
  then obtain a b where p: "p = a @ ''/'' @ b @ CHR ''/'' # t" and a: "accepts c a"
    and b: "accepts d b" and kw: "kw = [(n, to_python c a), (m, to_python d b)]" by blast
  show "match_parts ?ps p = Some kw"
  proof (rule match_unique)
    show "splits ?ps p kw"
      unfolding p kw using a b by (rule splits_two_paramI)
  next
    fix kw'
    assume "splits ?ps p kw'"
    from splits_two_paramD [OF this] obtain a' b' where p': "p = a' @ ''/'' @ b' @ CHR ''/'' # t"
      and a': "accepts c a'" and b': "accepts d b'"
      and kw': "kw' = [(n, to_python c a'), (m, to_python d b')]" by blast
    from p p' have "a @ CHR ''/'' # (b @ CHR ''/'' # t) = a' @ CHR ''/'' # (b' @ CHR ''/'' # t)"
      by simp
    with nc [OF a] nc [OF a'] have aa: "a = a'" and r: "b @ CHR ''/'' # t = b' @ CHR ''/'' # t"
      using slash_split_unique by blast+
    from r nd [OF b] nd [OF b'] have "b = b'" using slash_split_unique by blast
    with aa kw kw' show "kw' = kw" by simp
  qed
qed

lemma match_prefixed_param:
  assumes ns: "\<And>a. accepts c a \<Longrightarrow> CHR ''/'' \<notin> set a"
  shows "(match_parts [Literal l, Parameter c n, Literal (CHR ''/'' # t)] p = Some kw) =
     (\<exists>a. p = l @ a @ CHR ''/'' # t \<and> accepts c a \<and> kw = [(n, to_python c a)])"
  (is "(match_parts ?ps p = Some kw) = ?R")
proof
  assume "match_parts ?ps p = Some kw"
  then have "splits ?ps p kw" by (rule match_sound)
  then show ?R by (rule splits_prefixed_paramD)
next
  assume ?R
  then obtain a where p: "p = l @ a @ CHR ''/'' # t" and a: "accepts c a"
    and kw: "kw = [(n, to_python c a)]" by blast
  show "match_parts ?ps p = Some kw"
  proof (rule match_unique)
    show "splits ?ps p kw"
      unfolding p kw using a by (rule splits_prefixed_paramI)
  next
    fix kw'
    assume "splits ?ps p kw'"
    from splits_prefixed_paramD [OF this] obtain a' where p': "p = l @ a' @ CHR ''/'' # t"
      and a': "accepts c a'" and kw': "kw' = [(n, to_python c a')]" by blast
    from p p' have "a @ CHR ''/'' # t = a' @ CHR ''/'' # t" by simp
    with ns [OF a] ns [OF a'] have "a = a'" using slash_split_unique by blast
    with kw kw' show "kw' = kw" by simp
  qed
qed

section \<open>The claims\<close>

lemma url_surface_value:
  "url_surface =
     [''/404/'', ''/500/'', ''/'', ''/group/<slug>/'', ''/new/'', ''/justpage/'', ''/follow/'',
      ''/<username>/follow/'', ''/<username>/unfollow/'', ''/<username>/'',
      ''/<username>/<post_id>/'', ''/<username>/<post_id>/edit/'',
      ''/<username>/<post_id>/comment/'']"
  by (simp add: url_surface_def url_list_def urlpatterns_value surface_def)

lemma set_remove1_member: "x \<in> set xs \<Longrightarrow> set xs = set (remove1 x xs) \<union> {x}"
  by (induction xs) auto

text \<open>
  C1 as stated: the URL surface is exactly the table of section 6. It is not: the list
  declares \<^verbatim>\<open>justpage/\<close>, which the table does not list.
\<close>

theorem url_surface_not_table:
  "''/justpage/'' \<in> set url_surface \<and> ''/justpage/'' \<notin> set spec_url_table \<and>
   set url_surface \<noteq> set spec_url_table"
proof -
  have a: "''/justpage/'' \<in> set url_surface"
    by (simp add: url_surface_value)
  have b: "''/justpage/'' \<notin> set spec_url_table"
    by (simp add: spec_url_table_def)
  from a b have "set url_surface \<noteq> set spec_url_table" by blast
  with a b show ?thesis by simp
qed

text \<open>
  C1 as amended: every route of the table is declared, and the only declared route the
  table leaves out is \<^verbatim>\<open>justpage/\<close>.
\<close>

theorem url_surface_is_table_and_justpage:
  "set url_surface = set spec_url_table \<union> {''/justpage/''}"
proof -
  have r: "remove1 ''/justpage/'' url_surface = spec_url_table"
    by (simp add: url_surface_value spec_url_table_def)
  have "''/justpage/'' \<in> set url_surface"
    by (simp add: url_surface_value)
  then have "set url_surface = set (remove1 ''/justpage/'' url_surface) \<union> {''/justpage/''}"
    by (rule set_remove1_member)
  with r show ?thesis by simp
qed

text \<open>
  C7: the custom error pages are routable. The list binds the route \<^verbatim>\<open>404/\<close> to
  \<^verbatim>\<open>views.page_not_found\<close> and the route \<^verbatim>\<open>500/\<close> to \<^verbatim>\<open>views.server_error\<close>, and
  a request for either path is dispatched to that view.
\<close>

theorem error_pages_registered:
  "(''404/'', views_page_not_found) \<in> set (map (\<lambda>u. (route u, callback u)) url_list) \<and>
   (''500/'', views_server_error) \<in> set (map (\<lambda>u. (route u, callback u)) url_list) \<and>
   resolve ''404/'' = Some (views_page_not_found, []) \<and>
   resolve ''500/'' = Some (views_server_error, [])"
  by (simp add: url_list_def resolve_def urlpatterns_value starts_with_def)

subsection \<open>Each view's route\<close>

lemma route_match_simps:
  "route_match views_profile p =
     match_parts [Parameter StringConverter ''username'', Literal ''/''] p"
  "route_match views_profile_follow p =
     match_parts [Parameter StringConverter ''username'', Literal ''/follow/''] p"
  "route_match views_profile_unfollow p =
     match_parts [Parameter StringConverter ''username'', Literal ''/unfollow/''] p"
  "route_match views_post_view p =
     match_parts [Parameter StringConverter ''username'', Literal ''/'',
                  Parameter IntConverter ''post_id'', Literal ''/''] p"
  "route_match views_post_edit p =
     match_parts [Parameter StringConverter ''username'', Literal ''/'',
                  Parameter IntConverter ''post_id'', Literal ''/edit/''] p"
  "route_match views_add_comment p =
     match_parts [Parameter StringConverter ''username'', Literal ''/'',
                  Parameter IntConverter ''post_id'', Literal ''/comment/''] p"
  "route_match views_group_posts p =
     match_parts [Literal ''group/'', Parameter SlugConverter ''slug'', Literal ''/''] p"
  by (simp_all add: route_match_def pattern_of_def url_list_def urlpatterns_value
      del: match_parts.simps)

lemma two_segment_unique:
  assumes "CHR ''/'' \<notin> set a'" and "CHR ''/'' \<notin> set b'"
    and eq: "a @ CHR ''/'' # b = a' @ CHR ''/'' # b'"
  shows "a = a' \<and> b = b'"
proof -
  have "count_list (a @ CHR ''/'' # b) CHR ''/'' = count_list (a' @ CHR ''/'' # b') CHR ''/''"
    using eq by simp
  with assms(1,2) have "count_list a CHR ''/'' + count_list b CHR ''/'' = 0"
    by simp
  then have "CHR ''/'' \<notin> set a" by (simp add: count_list_0_iff)
  from slash_split_unique [OF this assms(1) eq] show ?thesis .
qed

lemma post_routes_iff:
  "(match_parts [Parameter StringConverter n, Literal ''/'', Parameter IntConverter m,
                 Literal (CHR ''/'' # t)] (a @ ''/'' @ b @ CHR ''/'' # t) \<noteq> None) =
   (accepts StringConverter a \<and> accepts IntConverter b)"
  (is "(?M \<noteq> None) = ?R")
proof
  assume "?M \<noteq> None"
  then obtain kw where "?M = Some kw" by blast
  then obtain a' b' where e: "a @ ''/'' @ b @ CHR ''/'' # t = a' @ ''/'' @ b' @ CHR ''/'' # t"
    and a': "accepts StringConverter a'" and b': "accepts IntConverter b'"
    using match_two_param [OF accepts_str_no_slash accepts_int_no_slash] by blast
  from e have "(a @ CHR ''/'' # b) @ CHR ''/'' # t = (a' @ CHR ''/'' # b') @ CHR ''/'' # t"
    by simp
  then have "a @ CHR ''/'' # b = a' @ CHR ''/'' # b'" by (simp only: append_same_eq)
  with accepts_str_no_slash [OF a'] accepts_int_no_slash [OF b']
  have "a = a' \<and> b = b'" using two_segment_unique by blast
  with a' b' show ?R by simp
next
  assume ?R
  then have "?M = Some [(n, to_python StringConverter a), (m, to_python IntConverter b)]"
    using match_two_param [OF accepts_str_no_slash accepts_int_no_slash] by blast
  then show "?M \<noteq> None" by simp
qed

lemma user_routes_iff:
  "(match_parts [Parameter StringConverter n, Literal (CHR ''/'' # t)] (a @ CHR ''/'' # t) \<noteq> None)
     = accepts StringConverter a"
  (is "(?M \<noteq> None) = ?R")
proof
  assume "?M \<noteq> None"
  then obtain kw where "?M = Some kw" by blast
  then obtain a' where e: "a @ CHR ''/'' # t = a' @ CHR ''/'' # t"
    and a': "accepts StringConverter a'"
    using match_param_suffix [OF accepts_str_no_slash] by blast
  from e have "a = a'" by (simp only: append_same_eq)
  with a' show ?R by simp
next
  assume ?R
  then have "?M = Some [(n, to_python StringConverter a)]"
    using match_param_suffix [OF accepts_str_no_slash] by blast
  then show "?M \<noteq> None" by simp
qed

lemma group_match:
  assumes "accepts SlugConverter g"
  shows "match_parts [Literal ''group/'', Parameter SlugConverter ''slug'', Literal ''/'']
           (''group/'' @ g @ ''/'') = Some [(''slug'', StrArg g)]"
proof -
  have "\<exists>a. ''group/'' @ g @ ''/'' = ''group/'' @ a @ CHR ''/'' # [] \<and> accepts SlugConverter a \<and>
          [(''slug'', StrArg g)] = [(''slug'', to_python SlugConverter a)]"
    using assms by (intro exI [of _ g]) simp
  then show ?thesis
    by (simp only: match_prefixed_param [OF accepts_slug_no_slash])
qed

lemma resolve_group:
  assumes "accepts SlugConverter g"
  shows "resolve (''group/'' @ g @ ''/'') = Some (views_group_posts, [(''slug'', StrArg g)])"
proof -
  define p where "p = ''group/'' @ g @ ''/''"
  have n1: "match_parts [Literal ''404/''] p = None"
    by (simp add: p_def starts_with_def)
  have n2: "match_parts [Literal ''500/''] p = None"
    by (simp add: p_def starts_with_def)
  have n3: "match_parts [] p = None"
    by (simp add: p_def)
  have g: "match_parts [Literal ''group/'', Parameter SlugConverter ''slug'', Literal ''/''] p
             = Some [(''slug'', StrArg g)]"
    unfolding p_def using assms by (rule group_match)
  have "resolve p = Some (views_group_posts, [(''slug'', StrArg g)])"
    by (simp add: resolve_def urlpatterns_value n1 n2 n3 g del: match_parts.simps)
  then show ?thesis unfolding p_def .
qed

text \<open>
  C8: resolution takes the first pattern that matches, and the literal routes stand before
  the username catch-all. Each of \<^verbatim>\<open>404/\<close>, \<^verbatim>\<open>500/\<close>, \<^verbatim>\<open>new/\<close>,
  \<^verbatim>\<open>justpage/\<close> and \<^verbatim>\<open>follow/\<close> is matched by its own route and by the profile
  route (in that order), and is dispatched to its own view; every path
  \<^verbatim>\<open>group/<slug>/\<close> with an accepted slug is dispatched to \<^verbatim>\<open>views.group_posts\<close>.
\<close>

theorem literal_routes_shadow_profile:
  "resolve ''404/'' = Some (views_page_not_found, []) \<and>
   candidates ''404/'' = [views_page_not_found, views_profile] \<and>
   resolve ''500/'' = Some (views_server_error, []) \<and>
   candidates ''500/'' = [views_server_error, views_profile] \<and>
   resolve ''new/'' = Some (views_new_post, []) \<and>
   candidates ''new/'' = [views_new_post, views_profile] \<and>
   resolve ''justpage/'' = Some (views_JustStaticPage, []) \<and>
   candidates ''justpage/'' = [views_JustStaticPage, views_profile] \<and>
   resolve ''follow/'' = Some (views_follow_index, []) \<and>
   candidates ''follow/'' = [views_follow_index, views_profile] \<and>
   (accepts SlugConverter slug \<longrightarrow>
      resolve (''group/'' @ slug @ ''/'') = Some (views_group_posts, [(''slug'', StrArg slug)]))"
proof -
  have r1: "resolve ''404/'' = Some (views_page_not_found, [])" by code_simp
  have c1: "candidates ''404/'' = [views_page_not_found, views_profile]" by code_simp
  have r2: "resolve ''500/'' = Some (views_server_error, [])" by code_simp
  have c2: "candidates ''500/'' = [views_server_error, views_profile]" by code_simp
  have r3: "resolve ''new/'' = Some (views_new_post, [])" by code_simp
  have c3: "candidates ''new/'' = [views_new_post, views_profile]" by code_simp
  have r4: "resolve ''justpage/'' = Some (views_JustStaticPage, [])" by code_simp
  have c4: "candidates ''justpage/'' = [views_JustStaticPage, views_profile]" by code_simp
  have r5: "resolve ''follow/'' = Some (views_follow_index, [])" by code_simp
  have c5: "candidates ''follow/'' = [views_follow_index, views_profile]" by code_simp
  have g: "accepts SlugConverter slug \<longrightarrow>
      resolve (''group/'' @ slug @ ''/'') = Some (views_group_posts, [(''slug'', StrArg slug)])"
    using resolve_group by blast
  from r1 c1 r2 c2 r3 c3 r4 c4 r5 c5 g show ?thesis by (intro conjI)
qed

text \<open>C8 at the slug \<^verbatim>\<open>test-slug\<close> of the test fixture.\<close>

theorem literal_routes_shadow_profile_witness:
  "accepts SlugConverter ''test-slug'' \<and>
   resolve ''group/test-slug/'' = Some (views_group_posts, [(''slug'', StrArg ''test-slug'')]) \<and>
   resolve ''follow/'' = Some (views_follow_index, []) \<and>
   candidates ''follow/'' = [views_follow_index, views_profile]"
proof -
  have a: "accepts SlugConverter ''test-slug''"
    by (simp add: is_slug_char_def is_lower_def is_upper_def is_digit_def in_range_def ord_def)
  from literal_routes_shadow_profile [of "''test-slug''"] a show ?thesis by simp
qed

lemma two_segment_no_longer_route:
  assumes u: "CHR ''/'' \<notin> set u" and s: "CHR ''/'' \<notin> set s" and t: "t \<noteq> []"
  shows "match_parts [Parameter StringConverter n, Literal ''/'', Parameter IntConverter m,
                      Literal (CHR ''/'' # t)] (u @ ''/'' @ s @ ''/'') = None"
  (is "?M = None")
proof (rule ccontr)
  assume "?M \<noteq> None"
  then obtain kw where "?M = Some kw" by blast
  then obtain a b where e: "u @ ''/'' @ s @ ''/'' = a @ ''/'' @ b @ CHR ''/'' # t"
    and a: "accepts StringConverter a" and b: "accepts IntConverter b"
    using match_two_param [OF accepts_str_no_slash accepts_int_no_slash] by blast
  from e have e1: "u @ CHR ''/'' # (s @ ''/'') = a @ CHR ''/'' # (b @ CHR ''/'' # t)" by simp
  from slash_split_unique [OF u accepts_str_no_slash [OF a] e1]
  have "s @ CHR ''/'' # [] = b @ CHR ''/'' # t" by simp
  from slash_split_unique [OF s accepts_int_no_slash [OF b] this] t
  show False by simp
qed

text \<open>
  C9: the post routes take their second segment through the \<^verbatim>\<open>int\<close> converter. The
  post, edit and comment routes match a path exactly when it is a username without slash,
  a slash, a non-empty string of the digits 0 to 9, and the route's ending; the view then
  gets the number these digits write. A two-segment path whose second segment is not such
  a string matches none of the three routes.
\<close>

theorem post_id_must_be_decimal:
  "(route_match views_post_view p = Some kw) =
     (\<exists>u d. p = u @ ''/'' @ d @ ''/'' \<and> accepts StringConverter u \<and> accepts IntConverter d \<and>
        kw = [(''username'', StrArg u), (''post_id'', IntArg (decimal d))]) \<and>
   (route_match views_post_edit p = Some kw) =
     (\<exists>u d. p = u @ ''/'' @ d @ ''/edit/'' \<and> accepts StringConverter u \<and> accepts IntConverter d \<and>
        kw = [(''username'', StrArg u), (''post_id'', IntArg (decimal d))]) \<and>
   (route_match views_add_comment p = Some kw) =
     (\<exists>u d. p = u @ ''/'' @ d @ ''/comment/'' \<and> accepts StringConverter u \<and> accepts IntConverter d \<and>
        kw = [(''username'', StrArg u), (''post_id'', IntArg (decimal d))]) \<and>
   accepts IntConverter s = (s \<noteq> [] \<and> list_all is_digit s) \<and>
   (CHR ''/'' \<notin> set n \<and> CHR ''/'' \<notin> set s \<and> \<not> accepts IntConverter s \<longrightarrow>
      route_match views_post_view (n @ ''/'' @ s @ ''/'') = None \<and>
      route_match views_post_edit (n @ ''/'' @ s @ ''/'') = None \<and>
      route_match views_add_comment (n @ ''/'' @ s @ ''/'') = None)"
proof -
  note m = match_two_param [OF accepts_str_no_slash accepts_int_no_slash]
  have v: "(route_match views_post_view p = Some kw) =
     (\<exists>u d. p = u @ ''/'' @ d @ ''/'' \<and> accepts StringConverter u \<and> accepts IntConverter d \<and>
        kw = [(''username'', StrArg u), (''post_id'', IntArg (decimal d))])"
    unfolding route_match_simps using m [where n = "''username''" and m = "''post_id''" and t = "[]" and p = p and kw = kw]
    by (simp del: match_parts.simps accepts.simps)
  have e: "(route_match views_post_edit p = Some kw) =
     (\<exists>u d. p = u @ ''/'' @ d @ ''/edit/'' \<and> accepts StringConverter u \<and> accepts IntConverter d \<and>
        kw = [(''username'', StrArg u), (''post_id'', IntArg (decimal d))])"
    unfolding route_match_simps using m [where n = "''username''" and m = "''post_id''" and t = "''edit/''" and p = p and kw = kw]
    by (simp del: match_parts.simps accepts.simps)
  have c: "(route_match views_add_comment p = Some kw) =
     (\<exists>u d. p = u @ ''/'' @ d @ ''/comment/'' \<and> accepts StringConverter u \<and> accepts IntConverter d \<and>
        kw = [(''username'', StrArg u), (''post_id'', IntArg (decimal d))])"
    unfolding route_match_simps using m [where n = "''username''" and m = "''post_id''" and t = "''comment/''" and p = p and kw = kw]
    by (simp del: match_parts.simps accepts.simps)
  have i: "accepts IntConverter s = (s \<noteq> [] \<and> list_all is_digit s)" by simp
  have t: "CHR ''/'' \<notin> set n \<and> CHR ''/'' \<notin> set s \<and> \<not> accepts IntConverter s \<longrightarrow>
      route_match views_post_view (n @ ''/'' @ s @ ''/'') = None \<and>
      route_match views_post_edit (n @ ''/'' @ s @ ''/'') = None \<and>
      route_match views_add_comment (n @ ''/'' @ s @ ''/'') = None"
  proof (intro impI conjI)
    assume h: "CHR ''/'' \<notin> set n \<and> CHR ''/'' \<notin> set s \<and> \<not> accepts IntConverter s"
    from h have "\<not> (accepts StringConverter n \<and> accepts IntConverter s)" by blast
    with post_routes_iff [where n = "''username''" and m = "''post_id''" and t = "[]"
        and a = n and b = s]
    have "match_parts [Parameter StringConverter ''username'', Literal ''/'',
                 Parameter IntConverter ''post_id'', Literal (CHR ''/'' # [])]
                 (n @ ''/'' @ s @ CHR ''/'' # []) = None"
      by blast
    then show "route_match views_post_view (n @ ''/'' @ s @ ''/'') = None"
      unfolding route_match_simps .
    from h have "match_parts [Parameter StringConverter ''username'', Literal ''/'',
                 Parameter IntConverter ''post_id'', Literal (CHR ''/'' # ''edit/'')]
                 (n @ ''/'' @ s @ ''/'') = None"
      by (intro two_segment_no_longer_route) simp_all
    then show "route_match views_post_edit (n @ ''/'' @ s @ ''/'') = None"
      unfolding route_match_simps by simp
    from h have "match_parts [Parameter StringConverter ''username'', Literal ''/'',
                 Parameter IntConverter ''post_id'', Literal (CHR ''/'' # ''comment/'')]
                 (n @ ''/'' @ s @ ''/'') = None"
      by (intro two_segment_no_longer_route) simp_all
    then show "route_match views_add_comment (n @ ''/'' @ s @ ''/'') = None"
      unfolding route_match_simps by simp
  qed
  from v e c i t show ?thesis by (intro conjI)
qed

text \<open>C9 at the paths \<^verbatim>\<open>leo/x12/\<close> and \<^verbatim>\<open>leo/12/\<close>.\<close>

theorem post_id_must_be_decimal_witness:
  "CHR ''/'' \<notin> set ''leo'' \<and> CHR ''/'' \<notin> set ''x12'' \<and> \<not> accepts IntConverter ''x12'' \<and>
   route_match views_post_view ''leo/x12/'' = None \<and>
   route_match views_post_edit ''leo/x12/'' = None \<and>
   route_match views_add_comment ''leo/x12/'' = None \<and>
   route_match views_post_view ''leo/12/'' =
     Some [(''username'', StrArg ''leo''), (''post_id'', IntArg 12)]"
proof -
  have h: "CHR ''/'' \<notin> set ''leo'' \<and> CHR ''/'' \<notin> set ''x12'' \<and> \<not> accepts IntConverter ''x12''"
    by (simp add: is_digit_def in_range_def ord_def)
  have a: "route_match views_post_view ''leo/12/'' =
     Some [(''username'', StrArg ''leo''), (''post_id'', IntArg 12)]"
    by code_simp
  note t = post_id_must_be_decimal [where n = "''leo''" and s = "''x12''" and p = "''leo/12/''"
      and kw = "[]"]
  from t [THEN conjunct2, THEN conjunct2, THEN conjunct2, THEN conjunct2, THEN mp, OF h]
  have "route_match views_post_view ''leo/x12/'' = None \<and>
        route_match views_post_edit ''leo/x12/'' = None \<and>
        route_match views_add_comment ''leo/x12/'' = None"
    by simp
  with h a show ?thesis by (intro conjI) simp_all
qed

text \<open>
  C10: the comment route writes its first component \<^verbatim>\<open><username>\<close> and the other
  username routes write \<^verbatim>\<open><str:username>\<close>. Both read as the same parameter with the
  \<^verbatim>\<open>str\<close> converter, so the comment route accepts a username exactly when the profile,
  follow, unfollow, post and edit routes do: when it is not empty and has no slash.
\<close>

theorem untyped_username_is_str:
  "component ''username'' = component ''str:username'' \<and>
   route_to_parts ''<username>/<int:post_id>/comment/'' =
     route_to_parts ''<str:username>/<int:post_id>/comment/'' \<and>
   (route_match views_add_comment (n @ ''/'' @ d @ ''/comment/'') \<noteq> None) =
     (accepts StringConverter n \<and> accepts IntConverter d) \<and>
   (route_match views_post_edit (n @ ''/'' @ d @ ''/edit/'') \<noteq> None) =
     (accepts StringConverter n \<and> accepts IntConverter d) \<and>
   (route_match views_post_view (n @ ''/'' @ d @ ''/'') \<noteq> None) =
     (accepts StringConverter n \<and> accepts IntConverter d) \<and>
   (route_match views_profile (n @ ''/'') \<noteq> None) = accepts StringConverter n \<and>
   (route_match views_profile_follow (n @ ''/follow/'') \<noteq> None) = accepts StringConverter n \<and>
   (route_match views_profile_unfollow (n @ ''/unfollow/'') \<noteq> None) = accepts StringConverter n \<and>
   accepts StringConverter n = (n \<noteq> [] \<and> CHR ''/'' \<notin> set n)"
proof -
  have c: "component ''username'' = component ''str:username''"
    by (simp add: component_def split_component_def is_identifier_def is_lower_def
        is_upper_def is_digit_def in_range_def ord_def get_converter_def)
  have r: "route_to_parts ''<username>/<int:post_id>/comment/'' =
     route_to_parts ''<str:username>/<int:post_id>/comment/''"
    by (simp add: component_def split_component_def is_identifier_def is_lower_def
        is_upper_def is_digit_def in_range_def ord_def get_converter_def)
  have m1: "(route_match views_add_comment (n @ ''/'' @ d @ ''/comment/'') \<noteq> None) =
     (accepts StringConverter n \<and> accepts IntConverter d)"
    unfolding route_match_simps
    using post_routes_iff [where n = "''username''" and m = "''post_id''" and t = "''comment/''"
        and a = n and b = d]
    by (simp del: match_parts.simps accepts.simps)
  have m2: "(route_match views_post_edit (n @ ''/'' @ d @ ''/edit/'') \<noteq> None) =
     (accepts StringConverter n \<and> accepts IntConverter d)"
    unfolding route_match_simps
    using post_routes_iff [where n = "''username''" and m = "''post_id''" and t = "''edit/''"
        and a = n and b = d]
    by (simp del: match_parts.simps accepts.simps)
  have m3: "(route_match views_post_view (n @ ''/'' @ d @ ''/'') \<noteq> None) =
     (accepts StringConverter n \<and> accepts IntConverter d)"
    unfolding route_match_simps
    using post_routes_iff [where n = "''username''" and m = "''post_id''" and t = "[]"
        and a = n and b = d]
    by (simp del: match_parts.simps accepts.simps)
  have u1: "(route_match views_profile (n @ ''/'') \<noteq> None) = accepts StringConverter n"
    unfolding route_match_simps
    using user_routes_iff [where n = "''username''" and t = "[]" and a = n]
    by (simp del: match_parts.simps accepts.simps)
  have u2: "(route_match views_profile_follow (n @ ''/follow/'') \<noteq> None) = accepts StringConverter n"
    unfolding route_match_simps
    using user_routes_iff [where n = "''username''" and t = "''follow/''" and a = n]
    by (simp del: match_parts.simps accepts.simps)
  have u3: "(route_match views_profile_unfollow (n @ ''/unfollow/'') \<noteq> None) = accepts StringConverter n"
    unfolding route_match_simps
    using user_routes_iff [where n = "''username''" and t = "''unfollow/''" and a = n]
    by (simp del: match_parts.simps accepts.simps)
  have a: "accepts StringConverter n = (n \<noteq> [] \<and> CHR ''/'' \<notin> set n)"
    by (rule accepts_str_iff)
  from c r m1 m2 m3 u1 u2 u3 a show ?thesis by (intro conjI)
qed

section \<open>The test methods\<close>

lemma user_not_module_name: "module_globals vals ''user'' = None"
  by (simp add: module_globals_def module_names_def)

lemma user_not_builtin: "python_builtins vals ''user'' = None"
  by (simp add: python_builtins_def builtin_names_def)

text \<open>
  C5: \<^verbatim>\<open>test_follow_unfollow_feauture\<close> reads the name \<^verbatim>\<open>user\<close>, which the method
  never assigns and the module never binds. Whatever the imports deliver, whatever the
  objects do and whatever \<^verbatim>\<open>self\<close> is, as long as the builtins bind no \<^verbatim>\<open>user\<close>,
  the method raises \<^verbatim>\<open>NameError\<close> for \<^verbatim>\<open>user\<close> at its first statement after the
  docstring: no call has been made, so no assertion has run, and the world is untouched.
\<close>

theorem follow_test_raises_NameError:
  "b ''user'' = None \<Longrightarrow>
   call_function rt (module_globals vals) b test_follow_unfollow_feauture [self] w =
     (Inl (NameError ''user''), \<lparr>locals = [(''self'', self)], world = w, calls = []\<rparr>)"
  by (simp add: call_function_def test_follow_unfollow_feauture_def lookup_def
      user_not_module_name)

text \<open>
  C5 with the builtins of the language, none of which is called \<^verbatim>\<open>user\<close>, and objects
  that are numbers.
\<close>

theorem follow_test_raises_NameError_witness:
  "python_builtins (\<lambda>n. 0 :: nat) ''user'' = None \<and>
   call_function
     \<lparr>getattr = (\<lambda>v a w. (Inr v, w)), call = (\<lambda>f args w. (Inr f, w)),
      str_const = (\<lambda>s. 0), num_const = (\<lambda>i. nat i)\<rparr>
     (module_globals (\<lambda>n. 0)) (python_builtins (\<lambda>n. 0)) test_follow_unfollow_feauture [7] () =
     (Inl (NameError ''user''), \<lparr>locals = [(''self'', 7)], world = (), calls = []\<rparr>)"
proof -
  have h: "python_builtins (\<lambda>n. 0 :: nat) ''user'' = None"
    by (rule user_not_builtin)
  from follow_test_raises_NameError [where b = "python_builtins (\<lambda>n. 0 :: nat)", OF h] h
  show ?thesis by simp
qed

text \<open>
  Were \<^verbatim>\<open>user\<close> bound in the module, the same method would go on to make its four calls
  (\<^verbatim>\<open>user.count()\<close> and \<^verbatim>\<open>self.assertEqual(...)\<close>, twice).
\<close>

lemma follow_test_calls_when_user_is_bound:
  "calls (snd (call_function
     \<lparr>getattr = (\<lambda>v a w. (Inr v, w)), call = (\<lambda>f args w. (Inr f, w)),
      str_const = (\<lambda>s. 0), num_const = (\<lambda>i. nat i)\<rparr>
     ((module_globals (\<lambda>n. 0)) (''user'' \<mapsto> 5)) (python_builtins (\<lambda>n. 0))
     test_follow_unfollow_feauture [7 :: nat] ())) =
   [(5, []), (7, [5, 1, 0]), (5, []), (7, [5, 0, 0])]"
  by (simp add: call_function_def test_follow_unfollow_feauture_def lookup_def)

text \<open>
  C6: \<^verbatim>\<open>test_profile_shows_new_post\<close> and \<^verbatim>\<open>test_only_authorized_client_can_comment\<close>
  are placeholders. After its docstring each body is the single statement \<^verbatim>\<open>pass\<close>;
  in every environment the method returns normally, having made no call (so no request
  and no assertion) and having left the world and its locals as they were.
\<close>

theorem placeholder_tests_do_nothing:
  "(\<exists>d. body test_profile_shows_new_post = [Expr (Str d), Pass]) \<and>
   (\<exists>d. body test_only_authorized_client_can_comment = [Expr (Str d), Pass]) \<and>
   call_function rt g b test_profile_shows_new_post [self] w =
     (Inr (), \<lparr>locals = [(''self'', self)], world = w, calls = []\<rparr>) \<and>
   call_function rt g b test_only_authorized_client_can_comment [self] w =
     (Inr (), \<lparr>locals = [(''self'', self)], world = w, calls = []\<rparr>)"
  by (simp add: call_function_def test_profile_shows_new_post_def
      test_only_authorized_client_can_comment_def)

section \<open>The pages\<close>




subsection \<open>Decimal numbers\<close>









subsection \<open>A page tells its posts apart\<close>




subsection \<open>Every history keeps the numbering\<close>











subsection \<open>Ten posts to a page\<close>






subsection \<open>The group page\<close>

text \<open>
  C4: the group page lists only the posts of its group. A post created in group \<open>a\<close>
  is on the page of \<open>a\<close> and on the page of no other group \<open>b\<close>; when it is the only
  post, the two pages have length 1 and 0. Every post on a page of \<open>b\<close> is a post of
  \<open>b\<close>.
\<close>

theorem group_page_shows_only_its_group:
  "a \<noteq> b \<Longrightarrow>
   (let (p, s') = Post_objects_create s txt author (Some a)
    in p \<in> set (context_page (group_posts s' a None)) \<and>
       p \<notin> set (context_page (group_posts s' b None)) \<and>
       (posts s = [] \<longrightarrow>
          length (context_page (group_posts s' a None)) = 1 \<and>
          length (context_page (group_posts s' b None)) = 0)) \<and>
   list_all (\<lambda>q. post_group q = Some b) (context_page (group_posts s b page))"
proof -
  assume ab: "a \<noteq> b"
  let ?p = "\<lparr>post_id = Suc (length (posts s)), post_text = txt, post_author = author,
             post_group = Some a\<rparr>"
  have 1: "?p \<in> set (take 10 (?p # filter (\<lambda>q. post_group q = Some a) (posts s)))"
    by simp
  have 2: "?p \<notin> set (take 10 (filter (\<lambda>q. post_group q = Some b) (posts s)))"
  proof
    assume "?p \<in> set (take 10 (filter (\<lambda>q. post_group q = Some b) (posts s)))"
    then have "?p \<in> set (filter (\<lambda>q. post_group q = Some b) (posts s))"
      by (rule in_set_takeD)
    then have "post_group ?p = Some b" by simp
    with ab show False by simp
  qed
  have 3: "list_all (\<lambda>q. post_group q = Some b) (context_page (group_posts s b page))"
    by (auto simp: group_posts_def paginate_def Let_def list_all_iff
        dest!: in_set_takeD in_set_dropD)
  from ab 1 2 3 show ?thesis
    by (simp add: Post_objects_create_def group_posts_def paginate_def Let_def)
qed

text \<open>
  C4 on the fixture of \<^verbatim>\<open>PostViewTests\<close>: \<^verbatim>\<open>test_group_shows_new_post\<close> and
  \<^verbatim>\<open>test_wrong_group_does_not_show_new_post\<close> pass.
\<close>

theorem group_page_shows_only_its_group_witness:
  "''test-slug'' \<noteq> ''slug-test'' \<and>
   test_group_shows_new_post (PostViewTests_setUpClass empty_site) \<and>
   test_wrong_group_does_not_show_new_post (PostViewTests_setUpClass empty_site)"
proof -
  define s3 where "s3 = snd (Group_objects_create
      (snd (Group_objects_create (snd (User_objects_create empty_site ''username''))
         (utf8 [208, 151, 208, 176, 208, 179, 208, 190, 208, 187, 208, 190, 208, 178, 208,
               190, 208, 186])
         ''test-slug''
         (utf8 [208, 158, 208, 191, 208, 184, 209, 129, 208, 176, 208, 189, 208, 184, 208,
               181])))
      (utf8 [208, 147, 209, 128, 209, 131, 208, 191, 208, 191, 208, 176])
      ''slug-test'' ''description'')"
  have e: "PostViewTests_setUpClass empty_site =
      snd (Post_objects_create s3
        (utf8 [208, 162, 208, 181, 208, 186, 209, 129, 209, 130])
        ''username'' (Some ''test-slug''))"
    by (simp add: PostViewTests_setUpClass_def s3_def Let_def split_def
        User_objects_create_def Group_objects_create_def)
  have n: "posts s3 = []"
    by (simp add: s3_def User_objects_create_def Group_objects_create_def empty_site_def Let_def)
  have d: "''test-slug'' \<noteq> ''slug-test''" by simp
  from group_page_shows_only_its_group [OF d, of s3
      "utf8 [208, 162, 208, 181, 208, 186, 209, 129, 209, 130]"
      "''username''" None] n e d
  show ?thesis
    by (simp add: test_group_shows_new_post_def test_wrong_group_does_not_show_new_post_def
        Let_def split_def)
qed

end
